theory Spec2Isabelle
  imports Main
begin

section \<open>The application shell (src/index.js)\<close>

text \<open>
  The \<open>App\<close> component keeps two fields in its React state: \<open>status\<close>, a string, and
  \<open>camera\<close>, the video element handed over by the camera component (\<open>null\<close> until
  then). The three arrow functions \<open>onCameraSuccess\<close>, \<open>onDetect\<close> and
  \<open>onCameraControl\<close> are the only places that call \<open>setState\<close>; \<open>setState\<close> merges the
  given fields into the state and leaves the others as they are.
\<close>

datatype video = Video nat

record app_state =
  status :: string
  camera :: "video option"

definition App_constructor :: app_state where
  "App_constructor = \<lparr>status = ''init'', camera = None\<rparr>"

definition onCameraSuccess :: "video \<Rightarrow> app_state \<Rightarrow> app_state" where
  "onCameraSuccess cam s = s\<lparr>camera := Some cam\<rparr>"

definition onDetect :: "app_state \<Rightarrow> app_state" where
  "onDetect s = s\<lparr>status := ''catch''\<rparr>"

definition onCameraControl :: "app_state \<Rightarrow> app_state" where
  "onCameraControl s = s\<lparr>status := ''detect''\<rparr>"

text \<open>One callback invocation, and a run of them from left to right.\<close>

datatype callback = CameraSuccess video | Detect | CameraControl

fun fire :: "callback \<Rightarrow> app_state \<Rightarrow> app_state" where
  "fire (CameraSuccess cam) s = onCameraSuccess cam s"
| "fire Detect s = onDetect s"
| "fire CameraControl s = onCameraControl s"

fun run :: "callback list \<Rightarrow> app_state \<Rightarrow> app_state" where
  "run [] s = s"
| "run (c # cs) s = run cs (fire c s)"

text \<open>
  \<open>render\<close> always mounts the camera and, depending on \<open>status\<close>, one of the three
  screens. The children are listed in the order of the JSX.
\<close>

datatype element = CameraEl | DetectorEl "video option" | PokeballEl | PokemonEl

definition render :: "app_state \<Rightarrow> element list" where
  "render s =
     [CameraEl]
     @ (if status s = ''detect'' then [DetectorEl (camera s)] else [])
     @ (if status s = ''catch'' then [PokeballEl] else [])
     @ (if status s = ''battle'' then [PokemonEl] else [])"

text \<open>The statuses that some run of callbacks reaches from the constructor's state.\<close>

definition reachable_statuses :: "string set" where
  "reachable_statuses = {s. \<exists>cs. s = status (run cs App_constructor)}"


section \<open>The detector component (src/components/detector/index.js)\<close>

subsection \<open>Data\<close>

text \<open>
  A corner is a JavaScript object with the number fields \<open>x\<close> and \<open>y\<close>; a marker carries
  its \<open>id\<close> and the array \<open>corners\<close>. The number type is left open: the component only
  writes the literals \<open>0\<close>, \<open>2\<close> and \<open>4\<close> and subtracts.
\<close>

record 'n point2d =
  xpos :: 'n
  ypos :: 'n

record 'n marker =
  ident :: nat
  corners :: "'n point2d list"

text \<open>An \<open>ImageData\<close>: the pixel bytes with their dimensions.\<close>

record raster =
  r_width :: nat
  r_height :: nat
  r_channels :: nat
  r_data :: "nat list"

text \<open>
  What JavaScript throws when a property of \<open>undefined\<close> or \<open>null\<close> is read, and the
  signal the detection library may raise.
\<close>

datatype js_error = TypeError | InvalidFrame

subsection \<open>The 2D drawing context\<close>

text \<open>
  The canvas API is the browser's. It is modelled by the state the component can
  observe or change: the two style properties it writes, the current path as the list
  of its line segments, the current point and the start of the current subpath, the
  stack of \<open>save()\<close>, and the paint operations issued on the bitmap so far, oldest
  first. What the browser makes of one of them (an image still loading draws
  nothing) is outside the model.
\<close>

datatype image_source = VideoElement video | DataImage

datatype 'n paint =
    PaintImage image_source 'n 'n "('n \<times> 'n) option"
  | PaintStroke string 'n "('n point2d \<times> 'n point2d) list"
  | PaintStrokeRect string 'n 'n 'n 'n 'n

record 'n context2d =
  lineWidth :: 'n
  strokeStyle :: string
  path :: "('n point2d \<times> 'n point2d) list"
  pen :: "'n point2d option"
  subpath_start :: "'n point2d option"
  saved :: "('n \<times> string) list"
  canvas :: "'n paint list"

definition drawImage ::
  "image_source \<Rightarrow> 'n \<Rightarrow> 'n \<Rightarrow> ('n \<times> 'n) option \<Rightarrow> 'n context2d \<Rightarrow> 'n context2d" where
  "drawImage img dx dy dsize c = c\<lparr>canvas := canvas c @ [PaintImage img dx dy dsize]\<rparr>"

definition beginPath :: "'n context2d \<Rightarrow> 'n context2d" where
  "beginPath c = c\<lparr>path := [], pen := None, subpath_start := None\<rparr>"

definition moveTo :: "'n \<Rightarrow> 'n \<Rightarrow> 'n context2d \<Rightarrow> 'n context2d" where
  "moveTo px py c =
     (let p = \<lparr>xpos = px, ypos = py\<rparr> in c\<lparr>pen := Some p, subpath_start := Some p\<rparr>)"

definition lineTo :: "'n \<Rightarrow> 'n \<Rightarrow> 'n context2d \<Rightarrow> 'n context2d" where
  "lineTo px py c =
     (case pen c of
        None \<Rightarrow> moveTo px py c
      | Some q \<Rightarrow> (let p = \<lparr>xpos = px, ypos = py\<rparr>
                  in c\<lparr>path := path c @ [(q, p)], pen := Some p\<rparr>))"

definition stroke :: "'n context2d \<Rightarrow> 'n context2d" where
  "stroke c = c\<lparr>canvas := canvas c @ [PaintStroke (strokeStyle c) (lineWidth c) (path c)]\<rparr>"

definition closePath :: "'n context2d \<Rightarrow> 'n context2d" where
  "closePath c =
     (case (pen c, subpath_start c) of
        (Some q, Some s) \<Rightarrow> c\<lparr>path := path c @ [(q, s)], pen := Some s\<rparr>
      | _ \<Rightarrow> c)"

definition strokeRect :: "'n \<Rightarrow> 'n \<Rightarrow> 'n \<Rightarrow> 'n \<Rightarrow> 'n context2d \<Rightarrow> 'n context2d" where
  "strokeRect rx ry rw rh c =
     c\<lparr>canvas := canvas c @ [PaintStrokeRect (strokeStyle c) (lineWidth c) rx ry rw rh]\<rparr>"

definition save :: "'n context2d \<Rightarrow> 'n context2d" where
  "save c = c\<lparr>saved := (lineWidth c, strokeStyle c) # saved c\<rparr>"

definition restore :: "'n context2d \<Rightarrow> 'n context2d" where
  "restore c =
     (case saved c of
        [] \<Rightarrow> c
      | (w, s) # rest \<Rightarrow> c\<lparr>lineWidth := w, strokeStyle := s, saved := rest\<rparr>)"

subsection \<open>The component\<close>

text \<open>
  The fields of the mounted component: the \<open>camera\<close> prop (the video element, or
  \<open>null\<close>), the drawing context of its canvas, the last \<open>imageData\<close> (\<open>null\<close> before the
  first snapshot), the window's \<open>width\<close> and \<open>height\<close>, and the number of animation
  frames requested so far. A method returns the state it leaves behind together with
  the exception it threw, if any.
\<close>

record 'n detector =
  props_camera :: "video option"
  ctx :: "'n context2d"
  imageData :: "raster option"
  width :: 'n
  height :: 'n
  frames_requested :: nat

text \<open>
  \<open>draw2DImg\<close>: for every marker, \<open>save\<close>, draw the image at \<open>corners[0]\<close>, \<open>restore\<close>.
  With an empty \<open>corners\<close>, \<open>p\<close> is \<open>undefined\<close> and reading \<open>p.x\<close> throws, after \<open>save\<close>.
\<close>

fun draw2DImg :: "'n marker list \<Rightarrow> 'n context2d \<Rightarrow> 'n context2d \<times> js_error option" where
  "draw2DImg [] c = (c, None)"
| "draw2DImg (m # ms) c =
     (case corners m of
        [] \<Rightarrow> (save c, Some TypeError)
      | p # _ \<Rightarrow> draw2DImg ms (restore (drawImage DataImage (xpos p) (ypos p) None (save c))))"

text \<open>
  The body of the inner loop of \<open>drawCorners\<close> at index \<open>j\<close>: both indices are below
  \<open>corners.length\<close> whenever the body runs.
\<close>

definition drawEdge :: "'n point2d list \<Rightarrow> 'n context2d \<Rightarrow> nat \<Rightarrow> 'n context2d" where
  "drawEdge cs c j =
     (let corner = cs ! j;
          c1 = moveTo (xpos corner) (ypos corner) c;
          corner' = cs ! ((j + 1) mod length cs)
      in lineTo (xpos corner') (ypos corner') c1)"

text \<open>
  The outer loop of \<open>drawCorners\<close>. With an empty \<open>corners\<close>, reading \<open>corners[0].x\<close>
  throws once the (empty) outline has been stroked and the style set to green.
\<close>

fun drawCorners_loop ::
  "'n::{minus,numeral} marker list \<Rightarrow> 'n context2d \<Rightarrow> 'n context2d \<times> js_error option" where
  "drawCorners_loop [] c = (c, None)"
| "drawCorners_loop (m # ms) c =
     (let cs = corners m;
          c1 = beginPath (c\<lparr>strokeStyle := ''red''\<rparr>);
          c2 = foldl (drawEdge cs) c1 [0..<length cs];
          c3 = closePath (stroke c2);
          c4 = c3\<lparr>strokeStyle := ''green''\<rparr>
      in case cs of
           [] \<Rightarrow> (c4, Some TypeError)
         | p # _ \<Rightarrow> drawCorners_loop ms (strokeRect (xpos p - 2) (ypos p - 2) 4 4 c4))"

definition drawCorners ::
  "'n::{minus,numeral} marker list \<Rightarrow> 'n context2d \<Rightarrow> 'n context2d \<times> js_error option" where
  "drawCorners markers c = drawCorners_loop markers (c\<lparr>lineWidth := 2\<rparr>)"

text \<open>
  \<open>snapshot\<close> draws the camera over the canvas and reads the pixels back. Reading
  pixels is the browser's work: \<open>getImageData\<close> is a parameter, a function of the
  context and the rectangle, taken to return normally. \<open>drawImage\<close> throws on a \<open>null\<close>
  source.
\<close>

definition snapshot ::
  "('n context2d \<Rightarrow> 'n \<Rightarrow> 'n \<Rightarrow> 'n \<Rightarrow> 'n \<Rightarrow> raster) \<Rightarrow> 'n::zero detector
   \<Rightarrow> 'n detector \<times> js_error option" where
  "snapshot getImageData d =
     (case props_camera d of
        None \<Rightarrow> (d, Some TypeError)
      | Some cam \<Rightarrow>
          (let c = drawImage (VideoElement cam) 0 0 (Some (width d, height d)) (ctx d)
           in (d\<lparr>ctx := c, imageData := Some (getImageData c 0 0 (width d) (height d))\<rparr>,
               None)))"

text \<open>
  \<open>tick\<close>: request the next animation frame, take the snapshot, run the detector of
  the library \<open>./aruco\<close> on \<open>this.imageData\<close> (a parameter: the library is not part of
  the sources at hand), and draw the overlays when the list it returns is not empty.
  An exception leaves the method at once.
\<close>

definition tick ::
  "('n context2d \<Rightarrow> 'n \<Rightarrow> 'n \<Rightarrow> 'n \<Rightarrow> 'n \<Rightarrow> raster)
   \<Rightarrow> (raster option \<Rightarrow> js_error + 'n marker list)
   \<Rightarrow> 'n::{zero,minus,numeral} detector \<Rightarrow> 'n detector \<times> js_error option" where
  "tick getImageData detect d =
     (case snapshot getImageData (d\<lparr>frames_requested := Suc (frames_requested d)\<rparr>) of
        (d1, Some e) \<Rightarrow> (d1, Some e)
      | (d1, None) \<Rightarrow>
          (case detect (imageData d1) of
             Inl e \<Rightarrow> (d1, Some e)
           | Inr markers \<Rightarrow>
               if length markers > 0 then
                 (case draw2DImg markers (ctx d1) of
                    (c2, Some e) \<Rightarrow> (d1\<lparr>ctx := c2\<rparr>, Some e)
                  | (c2, None) \<Rightarrow>
                      (case drawCorners markers c2 of
                         (c3, r) \<Rightarrow> (d1\<lparr>ctx := c3\<rparr>, r)))
               else (d1, None)))"

subsection \<open>What an outline is\<close>

text \<open>
  The closed polygon over a list of corners: for each index \<open>j\<close> the edge from corner
  \<open>j\<close> to corner \<open>(j + 1) mod n\<close>. \<open>outline\<close> is what is to appear on the canvas for one
  marker: the polygon in red, then the 4 by 4 square at the first corner in green,
  both with line width 2.
\<close>

definition edges :: "'a list \<Rightarrow> ('a \<times> 'a) list" where
  "edges cs = map (\<lambda>j. (cs ! j, cs ! ((j + 1) mod length cs))) [0..<length cs]"

definition outline :: "'n::{minus,numeral} marker \<Rightarrow> 'n paint list" where
  "outline m =
     (case corners m of
        [] \<Rightarrow> []
      | p # _ \<Rightarrow> [PaintStroke ''red'' 2 (edges (corners m)),
                  PaintStrokeRect ''green'' 2 (xpos p - 2) (ypos p - 2) 4 4])"


section \<open>The detection library (./aruco), after the specification\<close>

text \<open>
  The component imports \<open>AR\<close> from \<open>./aruco\<close> and calls \<open>AR.Detector.detect\<close>; that module
  is not among the sources. Its orchestrator is written down here from the
  specification (sections 3, 4, 6 and 7). Where the specification names an algorithm
  without fixing it (contour following, polygon simplification, the homography warp,
  the dictionary), the algorithm is a parameter, and every statement below holds for
  all values of the parameters. Coordinates live in an arbitrary ordered ring, in
  which products and comparisons are exact.
\<close>

subsection \<open>Configuration and stage parameters\<close>

text \<open>
  Modelled from the spec: the configuration of \<open>AR.Detector\<close> in \<open>./aruco\<close>, with the
  recognised options of section 6 (the dictionary is part of the decoder parameter)
  and the minimum contour perimeter of section 4.2.
\<close>

record 'n config =
  minMarkerAreaRatio :: 'n
  gridCellSize :: nat
  adaptiveThresholdWindow :: nat
  adaptiveThresholdConstant :: int
  duplicateCornerEpsilonPx :: 'n
  minContourPerimeter :: nat

text \<open>
  Modelled from the spec: the \<open>Candidate\<close> of \<open>./aruco\<close> (section 3), four corners and a
  perimeter.
\<close>

record 'n candidate =
  cand_corners :: "'n point2d list"
  perimeter :: 'n

text \<open>
  Modelled from the spec: the algorithms of \<open>./aruco\<close> that sections 4.1 to 4.5 name but do
  not fix. \<open>luma\<close> turns the channels of one pixel into a grey value; \<open>follow\<close> is the
  boundary following from a start pixel and \<open>outer\<close> the test for an outer contour;
  \<open>simplify\<close> is the polygon reduction (\<open>None\<close> when the iteration cap is hit) and
  \<open>aspect_ok\<close> the aspect-ratio filter; \<open>warp\<close> resamples a candidate (\<open>None\<close> on a
  singular system) and \<open>decode\<close> yields the id and the rotation index of a valid grid.
\<close>

record ('n, 'g) stages =
  luma :: "nat list \<Rightarrow> nat"
  follow :: "raster \<Rightarrow> nat \<times> nat \<Rightarrow> (nat \<times> nat) list"
  outer :: "raster \<Rightarrow> (nat \<times> nat) list \<Rightarrow> bool"
  simplify :: "(nat \<times> nat) list \<Rightarrow> 'n candidate option"
  aspect_ok :: "'n point2d list \<Rightarrow> bool"
  warp :: "'n candidate \<Rightarrow> raster \<Rightarrow> 'g option"
  decode :: "'g \<Rightarrow> (nat \<times> nat) option"

subsection \<open>Input validation and grey conversion\<close>

text \<open>
  Modelled from the spec: the well-formedness test of the orchestrator of \<open>./aruco\<close>
  (section 7, malformed input): one or four channels, and a buffer of
  width \<times> height \<times> channels samples.
\<close>

definition valid_frame :: "raster \<Rightarrow> bool" where
  "valid_frame f \<longleftrightarrow>
     (r_channels f = 1 \<or> r_channels f = 4)
     \<and> length (r_data f) = r_width f * r_height f * r_channels f"

text \<open>
  Modelled from the spec: the grey version of the frame that the binarizer of \<open>./aruco\<close>
  consumes (section 4.1). A one-channel frame is grey already.
\<close>

definition grayscale :: "('n, 'g) stages \<Rightarrow> raster \<Rightarrow> raster" where
  "grayscale st f =
     (if r_channels f = 1 then f
      else \<lparr>r_width = r_width f, r_height = r_height f, r_channels = 1,
            r_data = map (\<lambda>i. luma st (take (r_channels f) (drop (i * r_channels f) (r_data f))))
                       [0..<r_width f * r_height f]\<rparr>)"

subsection \<open>Binarizer (section 4.1)\<close>

text \<open>
  Modelled from the spec: the sample of a one-channel raster of \<open>./aruco\<close> at column
  \<open>fst p\<close> and row \<open>snd p\<close>, rows stored one after the other.
\<close>

definition pixel_at :: "raster \<Rightarrow> nat \<times> nat \<Rightarrow> nat" where
  "pixel_at g p = r_data g ! (snd p * r_width g + fst p)"

text \<open>
  Modelled from the spec: the edge policy of the binarizer of \<open>./aruco\<close>: a coordinate
  outside the raster is clamped to the nearest one inside.
\<close>

definition clamp_coord :: "int \<Rightarrow> nat \<Rightarrow> nat" where
  "clamp_coord i n = nat (max 0 (min (int n - 1) i))"

text \<open>
  Modelled from the spec: the sliding window of the binarizer of \<open>./aruco\<close>, the pixels
  at most \<open>r\<close> columns and rows away, clamped at the border.
\<close>

definition window :: "nat \<Rightarrow> raster \<Rightarrow> nat \<times> nat \<Rightarrow> (nat \<times> nat) list" where
  "window r g p =
     concat (map (\<lambda>dy. map (\<lambda>dx. (clamp_coord (int (fst p) + dx) (r_width g),
                                    clamp_coord (int (snd p) + dy) (r_height g)))
                            [- int r..int r])
                 [- int r..int r])"

text \<open>
  Modelled from the spec: the adaptive threshold of \<open>./aruco\<close>. A pixel is white (255)
  when it exceeds the local mean minus the constant, and black (0) otherwise; the
  comparison is made on the window's sum, without dividing.
\<close>

definition binarize :: "'n config \<Rightarrow> raster \<Rightarrow> raster" where
  "binarize cfg g =
     \<lparr>r_width = r_width g, r_height = r_height g, r_channels = 1,
      r_data = map (\<lambda>i. let p = (i mod r_width g, i div r_width g);
                            win = window (adaptiveThresholdWindow cfg div 2) g p;
                            total = sum_list (map (pixel_at g) win)
                        in if int total - adaptiveThresholdConstant cfg * int (length win)
                              < int (pixel_at g p) * int (length win)
                           then 255 else 0)
                   [0..<r_width g * r_height g]\<rparr>"

subsection \<open>Contour tracer (section 4.2)\<close>

text \<open>
  Modelled from the spec: the dark pixels of the binary raster in \<open>./aruco\<close>, which
  markers are made of.
\<close>

definition dark :: "raster \<Rightarrow> nat \<times> nat \<Rightarrow> bool" where
  "dark b p \<longleftrightarrow> pixel_at b p = 0"

text \<open>
  Modelled from the spec: the pixels next to a pixel in its row and in its column, as
  far as they lie inside the raster; what the contour tracer of \<open>./aruco\<close> looks at.
\<close>

definition neighbours :: "raster \<Rightarrow> nat \<times> nat \<Rightarrow> (nat \<times> nat) list" where
  "neighbours b p =
     (if fst p + 1 < r_width b then [(fst p + 1, snd p)] else [])
     @ (if 0 < fst p then [(fst p - 1, snd p)] else [])
     @ (if snd p + 1 < r_height b then [(fst p, snd p + 1)] else [])
     @ (if 0 < snd p then [(fst p, snd p - 1)] else [])"

text \<open>
  Modelled from the spec: the boundary pixels of the contour tracer of \<open>./aruco\<close>: a dark
  pixel with a light neighbour inside the raster. The specification does not say
  whether the border of the raster counts as light; here it does not.
\<close>

definition is_boundary :: "raster \<Rightarrow> nat \<times> nat \<Rightarrow> bool" where
  "is_boundary b p \<longleftrightarrow> dark b p \<and> list_ex (\<lambda>q. \<not> dark b q) (neighbours b p)"

text \<open>
  Modelled from the spec: the order of the raster scan of the contour tracer of
  \<open>./aruco\<close>, row by row.
\<close>

definition positions :: "raster \<Rightarrow> (nat \<times> nat) list" where
  "positions b = concat (map (\<lambda>y. map (\<lambda>x. (x, y)) [0..<r_width b]) [0..<r_height b])"

text \<open>
  Modelled from the spec: the raster scan of the contour tracer of \<open>./aruco\<close>: the
  boundary is followed from every boundary pixel that has not been visited, and the
  start pixel and what was followed are marked as visited.
\<close>

fun scan ::
  "(raster \<Rightarrow> nat \<times> nat \<Rightarrow> (nat \<times> nat) list) \<Rightarrow> raster \<Rightarrow> (nat \<times> nat) list
   \<Rightarrow> (nat \<times> nat) list \<Rightarrow> (nat \<times> nat) list list" where
  "scan fl b [] visited = []"
| "scan fl b (p # ps) visited =
     (if is_boundary b p \<and> p \<notin> set visited
      then (let c = fl b p in c # scan fl b ps (p # c @ visited))
      else scan fl b ps visited)"

text \<open>
  Modelled from the spec: the contour tracer of \<open>./aruco\<close>: the contours of the scan, in
  scan order, without those below the minimum perimeter and without inner contours.
\<close>

definition traceContours ::
  "('n, 'g) stages \<Rightarrow> 'n config \<Rightarrow> raster \<Rightarrow> (nat \<times> nat) list list" where
  "traceContours st cfg b =
     filter (\<lambda>c. minContourPerimeter cfg \<le> length c \<and> outer st b c)
            (scan (follow st) b (positions b) [])"

subsection \<open>Polygon approximator (section 4.3)\<close>

text \<open>
  Modelled from the spec: the signed area that the polygon approximator of \<open>./aruco\<close>
  checks the sign of; \<open>signed_area2\<close> is twice the signed area of the closed polygon,
  the shoelace sum over its edges.
\<close>

definition signed_area2 :: "'n::linordered_idom point2d list \<Rightarrow> 'n" where
  "signed_area2 cs = sum_list (map (\<lambda>(p, q). xpos p * ypos q - xpos q * ypos p) (edges cs))"

text \<open>
  Modelled from the spec: the turn at the vertex \<open>q\<close> between its neighbours \<open>p\<close> and \<open>r\<close>
  (the cross product of the two edges), for the convexity filter of \<open>./aruco\<close>.
\<close>

definition turn :: "'n::linordered_idom point2d \<Rightarrow> 'n point2d \<Rightarrow> 'n point2d \<Rightarrow> 'n" where
  "turn p q r = (xpos q - xpos p) * (ypos r - ypos q) - (ypos q - ypos p) * (xpos r - xpos q)"

text \<open>
  Modelled from the spec: the convexity filter of the polygon approximator of
  \<open>./aruco\<close>: the turns at all vertices have the same strict sign.
\<close>

definition convex :: "'n::linordered_idom point2d list \<Rightarrow> bool" where
  "convex cs \<longleftrightarrow>
     (let n = length cs;
          ts = map (\<lambda>j. turn (cs ! j) (cs ! ((j + 1) mod n)) (cs ! ((j + 2) mod n))) [0..<n]
      in list_all (\<lambda>t. 0 < t) ts \<or> list_all (\<lambda>t. t < 0) ts)"

text \<open>
  Modelled from the spec: the normalisation of the corner order of a quadrilateral to
  one winding direction in \<open>./aruco\<close>: when the signed area is negative the second and the
  fourth corner are exchanged, which reverses the direction and keeps the first corner.
\<close>

definition normalize_winding :: "'n::linordered_idom candidate \<Rightarrow> 'n candidate" where
  "normalize_winding c =
     (case cand_corners c of
        [p0, p1, p2, p3] \<Rightarrow>
          if signed_area2 [p0, p1, p2, p3] < 0 then c\<lparr>cand_corners := [p0, p3, p2, p1]\<rparr> else c
      | _ \<Rightarrow> c)"

text \<open>
  Modelled from the spec: the polygon approximator of \<open>./aruco\<close>: simplify, keep
  quadrilaterals that are convex, large enough for the frame and of acceptable aspect
  ratio, and normalise their winding.
\<close>

definition approxPoly ::
  "('n::linordered_idom, 'g) stages \<Rightarrow> 'n config \<Rightarrow> raster \<Rightarrow> (nat \<times> nat) list
   \<Rightarrow> 'n candidate option" where
  "approxPoly st cfg f contour =
     (case simplify st contour of
        None \<Rightarrow> None
      | Some c \<Rightarrow>
          if length (cand_corners c) = 4 \<and> convex (cand_corners c)
             \<and> 2 * (minMarkerAreaRatio cfg * of_nat (r_width f * r_height f))
                 \<le> \<bar>signed_area2 (cand_corners c)\<bar>
             \<and> aspect_ok st (cand_corners c)
          then Some (normalize_winding c) else None)"

subsection \<open>Warp and decoding (sections 4.4 and 4.5)\<close>

text \<open>
  Modelled from the spec: the last step of the marker decoder of \<open>./aruco\<close>: the corners
  of an accepted candidate are reordered by the rotation index. The marker is kept
  together with the perimeter of its candidate, which the orchestrator compares.
\<close>

definition decodeMarker ::
  "('n, 'g) stages \<Rightarrow> raster \<Rightarrow> 'n candidate \<Rightarrow> ('n marker \<times> 'n) option" where
  "decodeMarker st grey c =
     (case warp st c grey of
        None \<Rightarrow> None
      | Some grid \<Rightarrow>
          (case decode st grid of
             None \<Rightarrow> None
           | Some (i, rot) \<Rightarrow>
               Some (\<lparr>ident = i, corners = rotate rot (cand_corners c)\<rparr>, perimeter c)))"

subsection \<open>Orchestrator (section 4.6)\<close>

text \<open>
  Modelled from the spec: the squared distance of two corners, which the duplicate
  test of \<open>./aruco\<close> compares with the squared epsilon.
\<close>

definition dist2 :: "'n::linordered_idom point2d \<Rightarrow> 'n point2d \<Rightarrow> 'n" where
  "dist2 p q = (xpos p - xpos q) * (xpos p - xpos q) + (ypos p - ypos q) * (ypos p - ypos q)"

text \<open>
  Modelled from the spec: the duplicate test of the orchestrator of \<open>./aruco\<close>: the same
  id, and corresponding corners closer than the epsilon.
\<close>

definition duplicates :: "'n::linordered_idom \<Rightarrow> 'n marker \<Rightarrow> 'n marker \<Rightarrow> bool" where
  "duplicates eps a b \<longleftrightarrow>
     ident a = ident b \<and> list_all2 (\<lambda>p q. dist2 p q < eps * eps) (corners a) (corners b)"

text \<open>
  Modelled from the spec: the preference of the orchestrator of \<open>./aruco\<close> among
  duplicates: the accepted marker at index \<open>i\<close> is dropped when a duplicate of it has a
  larger perimeter, or the same perimeter and an earlier place in the list.
\<close>

definition dropped :: "'n::linordered_idom \<Rightarrow> ('n marker \<times> 'n) list \<Rightarrow> nat \<Rightarrow> bool" where
  "dropped eps acc i \<longleftrightarrow>
     list_ex (\<lambda>j. j \<noteq> i \<and> duplicates eps (fst (acc ! i)) (fst (acc ! j))
                  \<and> (snd (acc ! i) < snd (acc ! j) \<or> snd (acc ! i) = snd (acc ! j) \<and> j < i))
             [0..<length acc]"

text \<open>
  Modelled from the spec: the deduplication of the orchestrator of \<open>./aruco\<close>: the
  accepted markers that are not dropped, in their order.
\<close>

definition dedupe :: "'n::linordered_idom \<Rightarrow> ('n marker \<times> 'n) list \<Rightarrow> 'n marker list" where
  "dedupe eps acc = map (\<lambda>i. fst (acc ! i)) (filter (\<lambda>i. \<not> dropped eps acc i) [0..<length acc])"

text \<open>
  Modelled from the spec: the accepted markers of a well-formed frame, stages 4.1 to
  4.5 of \<open>./aruco\<close> in order; a contour or candidate that a stage rejects is left out.
\<close>

definition accepted ::
  "('n::linordered_idom, 'g) stages \<Rightarrow> 'n config \<Rightarrow> raster \<Rightarrow> ('n marker \<times> 'n) list" where
  "accepted st cfg f =
     (let grey = grayscale st f;
          contours = traceContours st cfg (binarize cfg grey);
          candidates = List.map_filter (approxPoly st cfg f) contours
      in List.map_filter (decodeMarker st grey) candidates)"

text \<open>
  Modelled from the spec: \<open>detect\<close> of \<open>./aruco\<close>: a malformed frame raises
  \<open>InvalidFrame\<close>; otherwise the accepted markers are deduplicated and returned.
\<close>

definition detect ::
  "('n::linordered_idom, 'g) stages \<Rightarrow> 'n config \<Rightarrow> raster \<Rightarrow> js_error + 'n marker list" where
  "detect st cfg f =
     (if \<not> valid_frame f then Inl InvalidFrame
      else Inr (dedupe (duplicateCornerEpsilonPx cfg) (accepted st cfg f)))"


subsection \<open>A concrete scene\<close>

text \<open>
  A square marker, a context as the browser hands it out, the mounted component over
  it, and a frame of two white pixels: the inputs at which the theorems below are
  instantiated.
\<close>

definition square_marker :: "int marker" where
  "square_marker =
     \<lparr>ident = 3,
      corners = [\<lparr>xpos = 10, ypos = 10\<rparr>, \<lparr>xpos = 50, ypos = 10\<rparr>,
                 \<lparr>xpos = 50, ypos = 50\<rparr>, \<lparr>xpos = 10, ypos = 50\<rparr>]\<rparr>"

definition fresh_context :: "int context2d" where
  "fresh_context =
     \<lparr>lineWidth = 1, strokeStyle = ''#000000'', path = [], pen = None,
      subpath_start = None, saved = [], canvas = []\<rparr>"

definition mounted_detector :: "int detector" where
  "mounted_detector =
     \<lparr>props_camera = Some (Video 0), ctx = fresh_context, imageData = None,
      width = 2, height = 1, frames_requested = 0\<rparr>"

definition white_frame :: raster where
  "white_frame = \<lparr>r_width = 2, r_height = 1, r_channels = 4, r_data = replicate 8 255\<rparr>"

text \<open>
  A run of the library model: stage parameters that follow a boundary pixel to a
  one-point contour and turn the two contours of a striped one-row frame into an outer
  and an inner square with the same id, the outer one traced against the normal
  direction; two malformed frames; and a second run in which three nested squares
  with the same id are accepted, each within the epsilon of the next.
\<close>

definition outer_candidate :: "int candidate" where
  "outer_candidate =
     \<lparr>cand_corners = [\<lparr>xpos = 0, ypos = 0\<rparr>, \<lparr>xpos = 0, ypos = 40\<rparr>,
                      \<lparr>xpos = 40, ypos = 40\<rparr>, \<lparr>xpos = 40, ypos = 0\<rparr>],
      perimeter = 160\<rparr>"

definition inner_candidate :: "int candidate" where
  "inner_candidate =
     \<lparr>cand_corners = [\<lparr>xpos = 1, ypos = 1\<rparr>, \<lparr>xpos = 39, ypos = 1\<rparr>,
                      \<lparr>xpos = 39, ypos = 39\<rparr>, \<lparr>xpos = 1, ypos = 39\<rparr>],
      perimeter = 152\<rparr>"

definition demo_stages :: "(int, int candidate) stages" where
  "demo_stages =
     \<lparr>luma = (\<lambda>px. case px of [] \<Rightarrow> 0 | r # _ \<Rightarrow> r),
      follow = (\<lambda>_ p. [p]),
      outer = (\<lambda>_ _. True),
      simplify = (\<lambda>c. if c = [(1, 0)] then Some outer_candidate
                       else if c = [(3, 0)] then Some inner_candidate else None),
      aspect_ok = (\<lambda>_. True),
      warp = (\<lambda>c _. Some c),
      decode = (\<lambda>_. Some (7, 1))\<rparr>"

definition demo_config :: "int config" where
  "demo_config =
     \<lparr>minMarkerAreaRatio = 0, gridCellSize = 7, adaptiveThresholdWindow = 3,
      adaptiveThresholdConstant = 7, duplicateCornerEpsilonPx = 3, minContourPerimeter = 1\<rparr>"

definition striped_frame :: raster where
  "striped_frame = \<lparr>r_width = 5, r_height = 1, r_channels = 1, r_data = [255, 0, 255, 0, 255]\<rparr>"


definition short_frame :: raster where
  "short_frame = \<lparr>r_width = 2, r_height = 1, r_channels = 4, r_data = replicate 7 255\<rparr>"

definition rgb_frame :: raster where
  "rgb_frame = \<lparr>r_width = 1, r_height = 1, r_channels = 3, r_data = [255, 255, 255]\<rparr>"

definition outer_marker :: "int marker" where
  "outer_marker =
     \<lparr>ident = 7, corners = [\<lparr>xpos = 40, ypos = 0\<rparr>, \<lparr>xpos = 40, ypos = 40\<rparr>,
                            \<lparr>xpos = 0, ypos = 40\<rparr>, \<lparr>xpos = 0, ypos = 0\<rparr>]\<rparr>"


definition ring_candidate :: "int \<Rightarrow> int candidate" where
  "ring_candidate k =
     \<lparr>cand_corners = [\<lparr>xpos = k, ypos = k\<rparr>, \<lparr>xpos = 48 - k, ypos = k\<rparr>,
                      \<lparr>xpos = 48 - k, ypos = 48 - k\<rparr>, \<lparr>xpos = k, ypos = 48 - k\<rparr>],
      perimeter = 4 * (48 - 2 * k)\<rparr>"



definition ring_marker :: "int \<Rightarrow> int marker" where
  "ring_marker k = \<lparr>ident = 7, corners = cand_corners (ring_candidate k)\<rparr>"

text \<open>
  The reading of the deduplication under which, of any two duplicates with different
  perimeters, the larger one is in the returned list and the smaller one is not.
\<close>

definition keeps_larger_of_every_pair ::
  "'n::linordered_idom \<Rightarrow> ('n marker \<times> 'n) list \<Rightarrow> 'n marker list \<Rightarrow> bool" where
  "keeps_larger_of_every_pair eps acc out \<longleftrightarrow>
     (\<forall>i < length acc. \<forall>j < length acc.
        duplicates eps (fst (acc ! i)) (fst (acc ! j)) \<and> snd (acc ! i) < snd (acc ! j) \<longrightarrow>
          fst (acc ! j) \<in> set out \<and> fst (acc ! i) \<notin> set out)"


section \<open>Properties of the application shell\<close>

lemma status_run_closed:
  "status s \<in> {''init'', ''detect'', ''catch''} \<Longrightarrow>
   status (run cs s) \<in> {''init'', ''detect'', ''catch''}"
proof (induction cs arbitrary: s)
  case Nil
  then show ?case by simp
next
  case (Cons c cs)
  have "status (fire c s) \<in> {''init'', ''detect'', ''catch''}"
    using Cons.prems by (cases c) (auto simp: onCameraSuccess_def onDetect_def onCameraControl_def)
  then show ?case using Cons.IH by simp
qed

lemma status_run_init:
  "status (run cs App_constructor) \<in> {''init'', ''detect'', ''catch''}"
  by (rule status_run_closed) (simp add: App_constructor_def)

lemma reach_init: "status (run [] App_constructor) = ''init''"
  by (simp add: App_constructor_def)

lemma reach_detect: "status (run [CameraControl] App_constructor) = ''detect''"
  by (simp add: App_constructor_def onCameraControl_def)

lemma reach_catch: "status (run [CameraControl, Detect] App_constructor) = ''catch''"
  by (simp add: App_constructor_def onCameraControl_def onDetect_def)

text \<open>
  C8, as stated, asks that the \<open>'battle'\<close> screen be reachable by some sequence of the
  callbacks. No callback writes \<open>'battle'\<close>: the status is never \<open>'battle'\<close>.
\<close>

theorem battle_unreachable: "''battle'' \<notin> reachable_statuses"
proof
  assume "''battle'' \<in> reachable_statuses"
  then obtain cs where "''battle'' = status (run cs App_constructor)"
    by (auto simp: reachable_statuses_def)
  with status_run_init [of cs] show False by auto
qed

text \<open>
  C8 (amended): starting from the constructor's state, the statuses reached by runs of
  the callbacks \<open>onCameraSuccess\<close>, \<open>onCameraControl\<close> and \<open>onDetect\<close> are exactly
  \<open>'init'\<close>, \<open>'detect'\<close> and \<open>'catch'\<close>. So the status stays within the four documented
  values, the detect and the catch screen are reachable, and \<open>'battle'\<close> is not.
\<close>

theorem app_statuses: "reachable_statuses = {''init'', ''detect'', ''catch''}"
proof
  show "reachable_statuses \<subseteq> {''init'', ''detect'', ''catch''}"
    using status_run_init by (auto simp: reachable_statuses_def)
next
  have "''init'' \<in> reachable_statuses"
    unfolding reachable_statuses_def using reach_init
    by (metis (mono_tags, lifting) mem_Collect_eq)
  moreover have "''detect'' \<in> reachable_statuses"
    unfolding reachable_statuses_def using reach_detect
    by (metis (mono_tags, lifting) mem_Collect_eq)
  moreover have "''catch'' \<in> reachable_statuses"
    unfolding reachable_statuses_def using reach_catch
    by (metis (mono_tags, lifting) mem_Collect_eq)
  ultimately show "{''init'', ''detect'', ''catch''} \<subseteq> reachable_statuses"
    by simp
qed

text \<open>The \<open>Pokemon\<close> element of the battle screen is therefore never mounted.\<close>

lemma pokemon_never_rendered: "PokemonEl \<notin> set (render (run cs App_constructor))"
proof -
  have "status (run cs App_constructor) \<noteq> ''battle''"
    using status_run_init [of cs] by auto
  then show ?thesis by (simp add: render_def)
qed


section \<open>Properties of the detector component\<close>


lemma drawEdge_eq:
  "drawEdge cs c j =
     c\<lparr>path := path c @ [(cs ! j, cs ! ((j + 1) mod length cs))],
       pen := Some (cs ! ((j + 1) mod length cs)),
       subpath_start := Some (cs ! j)\<rparr>"
  by (simp add: drawEdge_def moveTo_def lineTo_def Let_def)

lemma foldl_drawEdge:
  "k \<le> length cs \<Longrightarrow> path c = [] \<Longrightarrow>
   path (foldl (drawEdge cs) c [0..<k]) = take k (edges cs)
   \<and> canvas (foldl (drawEdge cs) c [0..<k]) = canvas c
   \<and> lineWidth (foldl (drawEdge cs) c [0..<k]) = lineWidth c
   \<and> strokeStyle (foldl (drawEdge cs) c [0..<k]) = strokeStyle c
   \<and> saved (foldl (drawEdge cs) c [0..<k]) = saved c"
proof (induction k)
  case 0
  then show ?case by simp
next
  case (Suc k)
  then show ?case
    by (simp add: drawEdge_eq edges_def take_Suc_conv_app_nth)
qed

lemma drawCorners_loop_paints:
  "\<forall>m \<in> set ms. corners m \<noteq> [] \<Longrightarrow> lineWidth c = 2 \<Longrightarrow>
   snd (drawCorners_loop ms c) = None
   \<and> canvas (fst (drawCorners_loop ms c)) = canvas c @ concat (map outline ms)
   \<and> lineWidth (fst (drawCorners_loop ms c)) = 2
   \<and> saved (fst (drawCorners_loop ms c)) = saved c"
proof (induction ms arbitrary: c)
  case Nil
  then show ?case by simp
next
  case (Cons m ms)
  obtain p ps where cs: "corners m = p # ps"
    using Cons.prems(1) by (cases "corners m") auto
  define c1 where "c1 = beginPath (c\<lparr>strokeStyle := ''red''\<rparr>)"
  define c2 where "c2 = foldl (drawEdge (corners m)) c1 [0..<length (corners m)]"
  define c4 where "c4 = (closePath (stroke c2))\<lparr>strokeStyle := ''green''\<rparr>"
  define c5 where "c5 = strokeRect (xpos p - 2) (ypos p - 2) 4 4 c4"
  have step: "drawCorners_loop (m # ms) c = drawCorners_loop ms c5"
    by (simp add: cs c1_def c2_def c4_def c5_def Let_def)
  have c1: "path c1 = []" "canvas c1 = canvas c" "lineWidth c1 = 2"
    "strokeStyle c1 = ''red''" "saved c1 = saved c"
    using Cons.prems(2) by (simp_all add: c1_def beginPath_def)
  have c2: "path c2 = edges (corners m)" "canvas c2 = canvas c" "lineWidth c2 = 2"
    "strokeStyle c2 = ''red''" "saved c2 = saved c"
    using foldl_drawEdge [of "length (corners m)" "corners m" c1] c1
    by (simp_all add: c2_def edges_def)
  have c4: "canvas c4 = canvas c @ [PaintStroke ''red'' 2 (edges (corners m))]"
    "lineWidth c4 = 2" "strokeStyle c4 = ''green''" "saved c4 = saved c"
    using c2 by (simp_all add: c4_def stroke_def closePath_def split: option.splits)
  have c5: "canvas c5 = canvas c @ outline m" "lineWidth c5 = 2" "saved c5 = saved c"
    using c4 by (simp_all add: c5_def strokeRect_def outline_def cs)
  have "\<forall>m \<in> set ms. corners m \<noteq> []" using Cons.prems(1) by simp
  from Cons.IH [OF this c5(2)] show ?case
    by (simp add: step c5 del: drawCorners_loop.simps)
qed

lemma length_edges: "length (edges cs) = length cs"
  by (simp add: edges_def)

lemma nth_edges:
  "j < length cs \<Longrightarrow> edges cs ! j = (cs ! j, cs ! ((j + 1) mod length cs))"
  by (simp add: edges_def)

lemma edges_chain:
  assumes "j < length cs"
  shows "snd (edges cs ! j) = fst (edges cs ! ((j + 1) mod length cs))"
proof -
  have "0 < length cs" using assms by auto
  then have "(j + 1) mod length cs < length cs" by (rule mod_less_divisor)
  then show ?thesis using assms by (simp add: nth_edges)
qed

lemma succ_mod_eq_iff:
  assumes "i < n" "j < (n::nat)"
  shows "(j + 1) mod n = i \<longleftrightarrow> j = (i + n - 1) mod n"
proof (cases "j + 1 = n")
  case True
  then have "(j + 1) mod n = 0" by simp
  moreover have "j = (i + n - 1) mod n \<longleftrightarrow> i = 0"
  proof (cases "i = 0")
    case True
    then show ?thesis using \<open>j + 1 = n\<close> by auto
  next
    case False
    then have "i + n - 1 = n + (i - 1)" using assms by simp
    moreover have "(n + (i - 1)) mod n = i - 1" using assms by simp
    ultimately have "(i + n - 1) mod n = i - 1" by metis
    then show ?thesis using False assms \<open>j + 1 = n\<close> by auto
  qed
  ultimately show ?thesis by auto
next
  case False
  then have lt: "j + 1 < n" using assms by simp
  show ?thesis
  proof (cases "i = 0")
    case True
    then have "(i + n - 1) mod n = n - 1" using assms by simp
    then show ?thesis using lt True by auto
  next
    case False
    then have "i + n - 1 = n + (i - 1)" using assms by simp
    moreover have "(n + (i - 1)) mod n = i - 1" using assms by simp
    ultimately have "(i + n - 1) mod n = i - 1" by metis
    then show ?thesis using lt False by auto
  qed
qed

lemma edges_endpoint_count:
  assumes "distinct cs" "2 \<le> length cs" "p \<in> set cs"
  shows "length (filter (\<lambda>e. fst e = p \<or> snd e = p) (edges cs)) = 2"
proof -
  let ?n = "length cs"
  obtain i where i: "i < ?n" "cs ! i = p"
    using assms(3) by (auto simp: in_set_conv_nth)
  let ?k = "(i + ?n - 1) mod ?n"
  have pos: "0 < ?n" using i(1) by auto
  have k: "?k < ?n" using pos by (rule mod_less_divisor)
  have ik: "i \<noteq> ?k"
  proof
    assume "i = ?k"
    then have "(i + 1) mod ?n = i" using succ_mod_eq_iff [OF i(1) i(1)] by simp
    then show False using i(1) assms(2)
      by (cases "i + 1 = ?n") auto
  qed
  have "{j. j < length (edges cs) \<and> (fst (edges cs ! j) = p \<or> snd (edges cs ! j) = p)}
        = {i, ?k}"
  proof (intro set_eqI iffI)
    fix j
    assume "j \<in> {j. j < length (edges cs) \<and> (fst (edges cs ! j) = p \<or> snd (edges cs ! j) = p)}"
    then have j: "j < ?n" and e: "cs ! j = p \<or> cs ! ((j + 1) mod ?n) = p"
      by (auto simp: length_edges nth_edges)
    have m: "(j + 1) mod ?n < ?n" using pos by (rule mod_less_divisor)
    from e have "j = i \<or> (j + 1) mod ?n = i"
      using nth_eq_iff_index_eq [OF assms(1)] i j m by metis
    then show "j \<in> {i, ?k}" using succ_mod_eq_iff [OF i(1) j] by auto
  next
    fix j
    assume "j \<in> {i, ?k}"
    then consider "j = i" | "j = ?k" by auto
    then show "j \<in> {j. j < length (edges cs) \<and> (fst (edges cs ! j) = p \<or> snd (edges cs ! j) = p)}"
    proof cases
      case 1
      then show ?thesis using i by (simp add: length_edges nth_edges)
    next
      case 2
      then have "(j + 1) mod ?n = i" using succ_mod_eq_iff [OF i(1), of j] k by simp
      then show ?thesis using i k 2 by (simp add: length_edges nth_edges)
    qed
  qed
  then have "length (filter (\<lambda>e. fst e = p \<or> snd e = p) (edges cs)) = card {i, ?k}"
    by (simp add: length_filter_conv_card)
  then show ?thesis using ik by simp
qed

text \<open>
  C9: for markers that have corners, \<open>drawCorners\<close> returns normally and adds to the
  canvas, per marker, one red stroke of width 2 over the edges from corner \<open>j\<close> to
  corner \<open>(j + 1) mod n\<close> for every index \<open>j\<close>, followed by one green 4 by 4 rectangle
  at the first corner shifted by \<open>(-2, -2)\<close>, and nothing else. The edges form one
  closed cycle (each edge ends where the next one starts, the last one at the first
  corner), and when the corners are distinct and at least two, every corner is an
  endpoint of exactly two of the edges.
\<close>

theorem drawCorners_closed_outline:
  fixes markers :: "'n::{minus,numeral} marker list"
  assumes "\<forall>m \<in> set markers. corners m \<noteq> []"
  shows "snd (drawCorners markers c) = None
    \<and> canvas (fst (drawCorners markers c)) =
        canvas c @ concat (map (\<lambda>m.
          [PaintStroke ''red'' 2 (edges (corners m)),
           PaintStrokeRect ''green'' 2 (xpos (corners m ! 0) - 2) (ypos (corners m ! 0) - 2) 4 4])
          markers)
    \<and> (\<forall>m \<in> set markers. length (edges (corners m)) = length (corners m))
    \<and> (\<forall>m \<in> set markers. \<forall>j < length (corners m).
          edges (corners m) ! j = (corners m ! j, corners m ! ((j + 1) mod length (corners m)))
          \<and> snd (edges (corners m) ! j)
              = fst (edges (corners m) ! ((j + 1) mod length (corners m))))
    \<and> (\<forall>m \<in> set markers. distinct (corners m) \<and> 2 \<le> length (corners m) \<longrightarrow>
          (\<forall>p \<in> set (corners m).
             length (filter (\<lambda>e. fst e = p \<or> snd e = p) (edges (corners m))) = 2))"
proof -
  have w: "lineWidth (c\<lparr>lineWidth := 2\<rparr>) = 2" by simp
  note loop = drawCorners_loop_paints [OF assms w]
  have o: "map outline markers = map (\<lambda>m.
          [PaintStroke ''red'' 2 (edges (corners m)),
           PaintStrokeRect ''green'' 2 (xpos (corners m ! 0) - 2) (ypos (corners m ! 0) - 2) 4 4])
          markers"
    using assms by (auto simp: outline_def split: list.splits)
  have 1: "snd (drawCorners markers c) = None"
    using loop by (simp add: drawCorners_def)
  have 2: "canvas (fst (drawCorners markers c)) =
        canvas c @ concat (map (\<lambda>m.
          [PaintStroke ''red'' 2 (edges (corners m)),
           PaintStrokeRect ''green'' 2 (xpos (corners m ! 0) - 2) (ypos (corners m ! 0) - 2) 4 4])
          markers)"
    using loop unfolding o [symmetric] by (simp add: drawCorners_def)
  have 3: "\<forall>m \<in> set markers. length (edges (corners m)) = length (corners m)"
    by (simp add: length_edges)
  have 4: "\<forall>m \<in> set markers. \<forall>j < length (corners m).
          edges (corners m) ! j = (corners m ! j, corners m ! ((j + 1) mod length (corners m)))
          \<and> snd (edges (corners m) ! j)
              = fst (edges (corners m) ! ((j + 1) mod length (corners m)))"
  proof (intro ballI allI impI conjI)
    fix m j assume "j < length (corners m)"
    then show "edges (corners m) ! j
        = (corners m ! j, corners m ! ((j + 1) mod length (corners m)))"
      by (rule nth_edges)
  next
    fix m j assume "j < length (corners m)"
    then show "snd (edges (corners m) ! j)
        = fst (edges (corners m) ! ((j + 1) mod length (corners m)))"
      by (rule edges_chain)
  qed
  have 5: "\<forall>m \<in> set markers. distinct (corners m) \<and> 2 \<le> length (corners m) \<longrightarrow>
          (\<forall>p \<in> set (corners m).
             length (filter (\<lambda>e. fst e = p \<or> snd e = p) (edges (corners m))) = 2)"
  proof (intro ballI impI)
    fix m p assume "distinct (corners m) \<and> 2 \<le> length (corners m)" "p \<in> set (corners m)"
    then show "length (filter (\<lambda>e. fst e = p \<or> snd e = p) (edges (corners m))) = 2"
      by (simp add: edges_endpoint_count)
  qed
  from 1 2 3 4 5 show ?thesis by (intro conjI)
qed


theorem drawCorners_closed_outline_witness:
  "corners square_marker \<noteq> []
   \<and> distinct (corners square_marker) \<and> 2 \<le> length (corners square_marker)
   \<and> snd (drawCorners [square_marker] fresh_context) = None
   \<and> canvas (fst (drawCorners [square_marker] fresh_context)) =
       [PaintStroke ''red'' 2
          [(\<lparr>xpos = 10, ypos = 10\<rparr>, \<lparr>xpos = 50, ypos = 10\<rparr>),
           (\<lparr>xpos = 50, ypos = 10\<rparr>, \<lparr>xpos = 50, ypos = 50\<rparr>),
           (\<lparr>xpos = 50, ypos = 50\<rparr>, \<lparr>xpos = 10, ypos = 50\<rparr>),
           (\<lparr>xpos = 10, ypos = 50\<rparr>, \<lparr>xpos = 10, ypos = 10\<rparr>)],
        PaintStrokeRect ''green'' 2 8 8 4 4]
   \<and> length (filter (\<lambda>e. fst e = \<lparr>xpos = 50, ypos = 10\<rparr> \<or> snd e = \<lparr>xpos = 50, ypos = 10\<rparr>)
         (edges (corners square_marker))) = 2"
proof -
  have h: "\<forall>m \<in> set [square_marker]. corners m \<noteq> []"
    by (simp add: square_marker_def)
  have e: "edges (corners square_marker) =
          [(\<lparr>xpos = 10, ypos = 10\<rparr>, \<lparr>xpos = 50, ypos = 10\<rparr>),
           (\<lparr>xpos = 50, ypos = 10\<rparr>, \<lparr>xpos = 50, ypos = 50\<rparr>),
           (\<lparr>xpos = 50, ypos = 50\<rparr>, \<lparr>xpos = 10, ypos = 50\<rparr>),
           (\<lparr>xpos = 10, ypos = 50\<rparr>, \<lparr>xpos = 10, ypos = 10\<rparr>)]"
    by (simp add: edges_def square_marker_def upt_rec)
  have d: "distinct (corners square_marker)" "2 \<le> length (corners square_marker)"
    "\<lparr>xpos = 50, ypos = 10\<rparr> \<in> set (corners square_marker)"
    by (simp_all add: square_marker_def)
  from drawCorners_closed_outline [OF h, of fresh_context] d e
  show ?thesis
    by (simp add: square_marker_def fresh_context_def)
qed

text \<open>
  C10: in a tick whose detector call returns the empty list, neither \<open>draw2DImg\<close> nor
  \<open>drawCorners\<close> runs: the component is left exactly as \<open>snapshot\<close> left it, and the
  only thing the tick painted is the camera frame. Conversely, whenever the canvas
  after a tick holds more than the snapshot's, the detector returned a non-empty list.
\<close>

theorem tick_no_markers_no_overlay:
  fixes d :: "'n::{zero,minus,numeral} detector"
  shows
  "(let d1 = fst (snapshot getImageData (d\<lparr>frames_requested := Suc (frames_requested d)\<rparr>))
    in (props_camera d = Some cam \<and> det (imageData d1) = Inr [] \<longrightarrow>
          tick getImageData det d = (d1, None)
          \<and> canvas (ctx d1)
              = canvas (ctx d) @ [PaintImage (VideoElement cam) 0 0 (Some (width d, height d))])
     \<and> (canvas (ctx (fst (tick getImageData det d))) \<noteq> canvas (ctx d1) \<longrightarrow>
          (\<exists>m ms. det (imageData d1) = Inr (m # ms))))"
proof -
  define d0 where "d0 = d\<lparr>frames_requested := Suc (frames_requested d)\<rparr>"
  define d1 where "d1 = fst (snapshot getImageData d0)"
  have a: "tick getImageData det d = (d1, None)
          \<and> canvas (ctx d1)
              = canvas (ctx d) @ [PaintImage (VideoElement cam) 0 0 (Some (width d, height d))]"
    if "props_camera d = Some cam" "det (imageData d1) = Inr []"
    using that
    by (simp add: tick_def snapshot_def d1_def d0_def Let_def drawImage_def)
  have b: "\<exists>m ms. det (imageData d1) = Inr (m # ms)"
    if neq: "canvas (ctx (fst (tick getImageData det d))) \<noteq> canvas (ctx d1)"
  proof (cases "snapshot getImageData d0")
    case (Pair s r)
    then have s: "s = d1" by (simp add: d1_def)
    show ?thesis
    proof (cases r)
      case (Some e)
      then have "tick getImageData det d = (d1, Some e)"
        using Pair s by (simp add: tick_def d0_def)
      then show ?thesis using neq by simp
    next
      case None
      show ?thesis
      proof (cases "det (imageData d1)")
        case (Inl e)
        then have "tick getImageData det d = (d1, Some e)"
          using Pair s None by (simp add: tick_def d0_def)
        then show ?thesis using neq by simp
      next
        case (Inr markers)
        show ?thesis
        proof (cases markers)
          case Nil
          then have "tick getImageData det d = (d1, None)"
            using Pair s None Inr by (simp add: tick_def d0_def)
          then show ?thesis using neq by simp
        next
          case (Cons m ms)
          then show ?thesis using Inr by blast
        qed
      qed
    qed
  qed
  show ?thesis
    unfolding Let_def using a b by (simp only: d1_def d0_def) blast
qed

lemma tick_square_canvas:
  "canvas (ctx (fst (tick (\<lambda>_ _ _ _ _. white_frame) (\<lambda>_. Inr [square_marker]) mounted_detector)))
   = [PaintImage (VideoElement (Video 0)) 0 0 (Some (2, 1)),
      PaintImage DataImage 10 10 None,
      PaintStroke ''red'' 2
          [(\<lparr>xpos = 10, ypos = 10\<rparr>, \<lparr>xpos = 50, ypos = 10\<rparr>),
           (\<lparr>xpos = 50, ypos = 10\<rparr>, \<lparr>xpos = 50, ypos = 50\<rparr>),
           (\<lparr>xpos = 50, ypos = 50\<rparr>, \<lparr>xpos = 10, ypos = 50\<rparr>),
           (\<lparr>xpos = 10, ypos = 50\<rparr>, \<lparr>xpos = 10, ypos = 10\<rparr>)],
      PaintStrokeRect ''green'' 2 8 8 4 4]"
  by (simp add: tick_def snapshot_def mounted_detector_def fresh_context_def square_marker_def
      drawImage_def save_def restore_def drawCorners_def drawEdge_def beginPath_def moveTo_def
      lineTo_def stroke_def closePath_def strokeRect_def Let_def upt_rec)

theorem tick_no_markers_no_overlay_witness:
  "props_camera mounted_detector = Some (Video 0)
   \<and> tick (\<lambda>_ _ _ _ _. white_frame) (\<lambda>_. Inr []) mounted_detector
       = (mounted_detector
            \<lparr>ctx := fresh_context\<lparr>canvas := [PaintImage (VideoElement (Video 0)) 0 0 (Some (2, 1))]\<rparr>,
             imageData := Some white_frame, frames_requested := 1\<rparr>, None)
   \<and> canvas (ctx (fst (tick (\<lambda>_ _ _ _ _. white_frame) (\<lambda>_. Inr [square_marker]) mounted_detector)))
       \<noteq> [PaintImage (VideoElement (Video 0)) 0 0 (Some (2, 1))]
   \<and> (\<exists>m ms. (Inr [square_marker] :: js_error + int marker list) = Inr (m # ms))"
proof -
  have s: "fst (snapshot (\<lambda>_ _ _ _ _. white_frame)
                 (mounted_detector\<lparr>frames_requested := Suc (frames_requested mounted_detector)\<rparr>))
           = mounted_detector
            \<lparr>ctx := fresh_context\<lparr>canvas := [PaintImage (VideoElement (Video 0)) 0 0 (Some (2, 1))]\<rparr>,
             imageData := Some white_frame, frames_requested := 1\<rparr>"
    by (simp add: snapshot_def mounted_detector_def fresh_context_def drawImage_def)
  have c: "props_camera mounted_detector = Some (Video 0)"
    by (simp add: mounted_detector_def)
  from tick_no_markers_no_overlay
         [of "\<lambda>_ _ _ _ _. white_frame" mounted_detector "Video 0" "\<lambda>_. Inr []"]
       tick_no_markers_no_overlay
         [of "\<lambda>_ _ _ _ _. white_frame" mounted_detector "Video 0" "\<lambda>_. Inr [square_marker]"]
  show ?thesis
    unfolding Let_def s using c
    by (simp add: tick_square_canvas)
qed


section \<open>Properties of the detection library model\<close>

lemma edges_rotate1: "edges (rotate1 cs) = rotate1 (edges cs)"
proof (cases "cs = []")
  case True
  then show ?thesis by (simp add: edges_def)
next
  case False
  let ?n = "length cs"
  have pos: "0 < ?n" using False by simp
  show ?thesis
  proof (rule nth_equalityI)
    show "length (edges (rotate1 cs)) = length (rotate1 (edges cs))"
      by (simp add: edges_def)
  next
    fix j assume "j < length (edges (rotate1 cs))"
    then have j: "j < ?n" by (simp add: edges_def)
    have m: "(j + 1) mod ?n < ?n" using pos by (rule mod_less_divisor)
    have "edges (rotate1 cs) ! j = (rotate1 cs ! j, rotate1 cs ! ((j + 1) mod ?n))"
      using j by (simp add: edges_def)
    also have "\<dots> = (cs ! ((j + 1) mod ?n), cs ! (((j + 1) mod ?n + 1) mod ?n))"
      using j m by (simp add: nth_rotate1)
    also have "\<dots> = edges cs ! ((j + 1) mod ?n)"
      using m by (simp add: edges_def)
    also have "\<dots> = rotate1 (edges cs) ! j"
      using j by (simp add: nth_rotate1 edges_def)
    finally show "edges (rotate1 cs) ! j = rotate1 (edges cs) ! j" .
  qed
qed

lemma sum_list_rotate1: "sum_list (rotate1 xs) = sum_list (xs :: 'a::comm_monoid_add list)"
  by (cases xs) (simp_all add: add.commute)

lemma signed_area2_rotate1: "signed_area2 (rotate1 cs) = signed_area2 cs"
  by (simp add: signed_area2_def edges_rotate1 rotate1_map [symmetric] sum_list_rotate1)

lemma signed_area2_rotate: "signed_area2 (rotate k cs) = signed_area2 cs"
  by (induction k) (simp_all add: signed_area2_rotate1)

lemma edges_quad: "edges [p0, p1, p2, p3] = [(p0, p1), (p1, p2), (p2, p3), (p3, p0)]"
  by (simp add: edges_def upt_rec)

lemma signed_area2_quad_turns:
  "signed_area2 [p0, p1, p2, p3] = turn p0 p1 p2 + turn p2 p3 p0"
  by (simp add: signed_area2_def edges_quad turn_def algebra_simps)

lemma signed_area2_quad_swap:
  "signed_area2 [p0, p3, p2, p1] = - signed_area2 [p0, p1, p2, p3]"
  by (simp add: signed_area2_def edges_quad algebra_simps)

lemma convex_quad_area:
  assumes "convex [p0, p1, p2, p3]"
  shows "signed_area2 [p0, p1, p2, p3] \<noteq> 0"
proof -
  have "(0 < turn p0 p1 p2 \<and> 0 < turn p2 p3 p0) \<or> (turn p0 p1 p2 < 0 \<and> turn p2 p3 p0 < 0)"
    using assms by (auto simp: convex_def Let_def upt_rec)
  then show ?thesis
    unfolding signed_area2_quad_turns by auto
qed

lemma normalize_winding_positive:
  assumes "length (cand_corners c) = 4" "convex (cand_corners c)"
  shows "0 < signed_area2 (cand_corners (normalize_winding c))"
    and "length (cand_corners (normalize_winding c)) = 4"
    and "perimeter (normalize_winding c) = perimeter c"
proof -
  obtain p0 p1 p2 p3 where cs: "cand_corners c = [p0, p1, p2, p3]"
    using assms(1) by (auto simp: length_Suc_conv eval_nat_numeral)
  have nz: "signed_area2 [p0, p1, p2, p3] \<noteq> 0"
    using assms(2) cs convex_quad_area by metis
  have nw: "normalize_winding c =
     (if signed_area2 [p0, p1, p2, p3] < 0 then c\<lparr>cand_corners := [p0, p3, p2, p1]\<rparr> else c)"
    by (simp add: normalize_winding_def cs)
  show "0 < signed_area2 (cand_corners (normalize_winding c))"
  proof (cases "signed_area2 [p0, p1, p2, p3] < 0")
    case True
    then have "cand_corners (normalize_winding c) = [p0, p3, p2, p1]" by (simp add: nw)
    then show ?thesis using True signed_area2_quad_swap [of p0 p3 p2 p1] by simp
  next
    case False
    then have "cand_corners (normalize_winding c) = [p0, p1, p2, p3]" by (simp add: nw cs)
    then show ?thesis using False nz by simp
  qed
  show "length (cand_corners (normalize_winding c)) = 4"
    by (simp add: nw cs)
  show "perimeter (normalize_winding c) = perimeter c"
    by (simp add: nw)
qed

lemma in_set_map_filter:
  "y \<in> set (List.map_filter g xs) \<longleftrightarrow> (\<exists>x \<in> set xs. g x = Some y)"
  by (induction xs) (auto split: option.splits)

lemma accepted_shape:
  assumes "(m, per) \<in> set (accepted st cfg f)"
  shows "\<exists>c0 rot. length (cand_corners c0) = 4 \<and> convex (cand_corners c0)
           \<and> corners m = rotate rot (cand_corners (normalize_winding c0))
           \<and> per = perimeter c0"
proof -
  define grey where "grey = grayscale st f"
  define contours where "contours = traceContours st cfg (binarize cfg grey)"
  from assms obtain c where c: "c \<in> set (List.map_filter (approxPoly st cfg f) contours)"
    and d: "decodeMarker st grey c = Some (m, per)"
    unfolding accepted_def Let_def grey_def contours_def
    by (auto simp: in_set_map_filter)
  from c obtain contour where "approxPoly st cfg f contour = Some c"
    by (auto simp: in_set_map_filter)
  then obtain c0 where c0: "length (cand_corners c0) = 4" "convex (cand_corners c0)"
    "c = normalize_winding c0"
    by (auto simp: approxPoly_def split: option.splits if_splits)
  from d obtain i rot where "m = \<lparr>ident = i, corners = rotate rot (cand_corners c)\<rparr>"
    "per = perimeter c"
    by (auto simp: decodeMarker_def split: option.splits)
  then show ?thesis
    using c0 normalize_winding_positive(3) [OF c0(1,2)] by auto
qed

lemma set_dedupe: "set (dedupe eps acc) \<subseteq> fst ` set acc"
  by (auto simp: dedupe_def)

text \<open>
  C5: every marker that \<open>detect\<close> returns has a strictly positive signed area (twice the
  shoelace sum of its four corners): one winding direction, whatever the direction of
  the polygon that the simplification produced and whatever the rotation index.
\<close>

theorem detect_winding:
  assumes "detect st cfg f = Inr ms" "m \<in> set ms"
  shows "0 < signed_area2 (corners m)"
proof -
  have "ms = dedupe (duplicateCornerEpsilonPx cfg) (accepted st cfg f)"
    using assms(1) by (simp add: detect_def split: if_splits)
  then obtain per where "(m, per) \<in> set (accepted st cfg f)"
    using assms(2) set_dedupe by fastforce
  then obtain c0 rot where c0: "length (cand_corners c0) = 4" "convex (cand_corners c0)"
    "corners m = rotate rot (cand_corners (normalize_winding c0))"
    using accepted_shape by blast
  show ?thesis
    unfolding c0(3) signed_area2_rotate
    using c0(1,2) by (rule normalize_winding_positive(1))
qed







lemma demo_detect:
  "detect demo_stages demo_config striped_frame = Inr [outer_marker]"
  by code_simp


text \<open>
  C3: a raster whose buffer length differs from width \<times> height \<times> channels, or whose
  channel count is neither 1 nor 4, makes \<open>detect\<close> raise \<open>InvalidFrame\<close>; no marker list
  is returned.
\<close>

theorem detect_malformed_frame:
  assumes "length (r_data f) \<noteq> r_width f * r_height f * r_channels f
           \<or> (r_channels f \<noteq> 1 \<and> r_channels f \<noteq> 4)"
  shows "detect st cfg f = Inl InvalidFrame \<and> (\<forall>ms. detect st cfg f \<noteq> Inr ms)"
  using assms by (auto simp: detect_def valid_frame_def)

theorem detect_malformed_frame_witness:
  "length (r_data short_frame) \<noteq> r_width short_frame * r_height short_frame * r_channels short_frame
   \<and> detect demo_stages demo_config short_frame = Inl InvalidFrame
   \<and> r_channels rgb_frame \<noteq> 1 \<and> r_channels rgb_frame \<noteq> 4
   \<and> detect demo_stages demo_config rgb_frame = Inl InvalidFrame"
proof -
  have a: "length (r_data short_frame)
           \<noteq> r_width short_frame * r_height short_frame * r_channels short_frame"
    by (simp add: short_frame_def)
  have b: "r_channels rgb_frame \<noteq> 1 \<and> r_channels rgb_frame \<noteq> 4"
    by (simp add: rgb_frame_def)
  from detect_malformed_frame [of short_frame demo_stages demo_config]
       detect_malformed_frame [of rgb_frame demo_stages demo_config] a b
  show ?thesis by simp
qed

theorem detect_winding_witness:
  "detect demo_stages demo_config striped_frame = Inr [outer_marker]
   \<and> outer_marker \<in> set [outer_marker]
   \<and> 0 < signed_area2 (corners outer_marker)"
proof -
  have "outer_marker \<in> set [outer_marker]" by simp
  from detect_winding [OF demo_detect this] demo_detect show ?thesis by simp
qed



lemma chain_duplicates:
  "duplicates 3 (ring_marker 4) (ring_marker 2)" "duplicates 3 (ring_marker 2) (ring_marker 0)"
  by code_simp+



text \<open>
  No deduplication at all could do what that reading asks on these three squares:
  the middle one would have to be returned as the larger of the first pair and left
  out as the smaller of the second.
\<close>

lemma no_list_keeps_larger_of_every_pair:
  "\<not> keeps_larger_of_every_pair 3
        [(ring_marker 4, 160 :: int), (ring_marker 2, 176), (ring_marker 0, 192)] out"
proof
  let ?acc = "[(ring_marker 4, 160 :: int), (ring_marker 2, 176), (ring_marker 0, 192)]"
  assume k: "keeps_larger_of_every_pair 3 ?acc out"
  have "fst (?acc ! 1) \<in> set out"
    using k [unfolded keeps_larger_of_every_pair_def, rule_format, of 0 1] chain_duplicates(1)
    by simp
  moreover have "fst (?acc ! 1) \<notin> set out"
    using k [unfolded keeps_larger_of_every_pair_def, rule_format, of 1 2] chain_duplicates(2)
    by simp
  ultimately show False by simp
qed




end
